theory Spec2Isabelle
  imports Complex_Main
begin

section \<open>Values of the host language\<close>

text \<open>
  The exporter is JavaScript.  Strings are modelled as \<open>string\<close>, a property that may be
  missing (\<open>undefined\<close>) as an \<open>option\<close>, numbers as \<open>real\<close> (rounding of doubles is not
  modelled), and a thrown exception as the left summand of \<open>error + 'a\<close>.
\<close>

datatype error =
    TypeError          \<comment> \<open>reading a property of \<open>undefined\<close>\<close>
  | RouterAccessError  \<comment> \<open>thrown by the getter of \<open>app.router\<close>\<close>
  | TransformError     \<comment> \<open>thrown by the user's \<open>transformLabels\<close> hook\<close>

text \<open>A property read through a getter either throws or returns.\<close>

datatype 'a access = Throws | Returns 'a

subsection \<open>String primitives\<close>

text \<open>\<open>s.replace(needle, repl)\<close> with a string needle: the first occurrence only.\<close>

fun replace_first :: "string \<Rightarrow> string \<Rightarrow> string \<Rightarrow> string" where
  "replace_first needle repl [] = (if needle = [] then repl else [])"
| "replace_first needle repl (c # cs) =
     (if take (length needle) (c # cs) = needle
      then repl @ drop (length needle) (c # cs)
      else c # replace_first needle repl cs)"

text \<open>\<open>s.replace(/\\\//g, '/')\<close>: every backslash followed by a slash becomes a slash.\<close>

fun unescape_slashes :: "string \<Rightarrow> string" where
  "unescape_slashes (a # b # cs) =
     (if a = CHR 0x5C \<and> b = CHR ''/'' then CHR ''/'' # unescape_slashes cs
      else a # unescape_slashes (b # cs))"
| "unescape_slashes cs = cs"

text \<open>\<open>toUpperCase\<close> on ASCII letters, which is all an HTTP verb contains.\<close>

definition upper_char :: "char \<Rightarrow> char" where
  "upper_char c =
     (case map_of (zip ''abcdefghijklmnopqrstuvwxyz'' ''ABCDEFGHIJKLMNOPQRSTUVWXYZ'') c of
        Some u \<Rightarrow> u
      | None \<Rightarrow> c)"

definition toUpperCase :: "string \<Rightarrow> string" where
  "toUpperCase s = map upper_char s"

subsection \<open>\<open>path.resolve\<close> of the platform (POSIX)\<close>

fun split_on :: "char \<Rightarrow> string \<Rightarrow> string list" where
  "split_on d [] = [[]]"
| "split_on d (c # cs) =
     (if c = d then [] # split_on d cs
      else (case split_on d cs of [] \<Rightarrow> [[c]] | w # ws \<Rightarrow> (c # w) # ws))"

fun collapse :: "string list \<Rightarrow> string list \<Rightarrow> string list" where
  "collapse acc [] = acc"
| "collapse acc (s # ss) =
     (if s = [] \<or> s = ''.'' then collapse acc ss
      else if s = ''..'' then collapse (butlast acc) ss
      else collapse (acc @ [s]) ss)"

fun join_with :: "string \<Rightarrow> string list \<Rightarrow> string" where
  "join_with sep [] = []"
| "join_with sep [s] = s"
| "join_with sep (s # t # ss) = s @ sep @ join_with sep (t # ss)"

text \<open>
  \<open>path.resolve(p)\<close> with one argument: a relative \<open>p\<close> (the empty string too) is taken
  from the working directory \<open>cwd\<close>; empty and \<open>.\<close> segments vanish, \<open>..\<close> removes the
  segment before it and stays at the root; the result starts with a slash and has no
  trailing one.
\<close>

definition resolve :: "string \<Rightarrow> string \<Rightarrow> string" where
  "resolve cwd p =
     (let full = (case p of [] \<Rightarrow> cwd
                  | c # cs \<Rightarrow> if c = CHR ''/'' then p else cwd @ ''/'' @ p)
      in ''/'' @ join_with ''/'' (collapse [] (split_on (CHR ''/'') full)))"

section \<open>Route discovery (express-utils.js)\<close>

text \<open>
  The shapes the discovery reads from the host application.  A handler is an element of
  \<open>route.stack\<close>, a layer an element of a router's \<open>stack\<close>; \<open>handle.stack\<close> is present
  when the layer mounts a sub-router.
\<close>

datatype handler = Handler (handler_method: "string option") (handler_path: "string option")

datatype route = Route (route_path: "string option") (route_stack: "handler list")

datatype layer =
  Layer (layer_regexp: "string option") (layer_route: "route option")
        (layer_handle: "handle option")
and handle = Handle (handle_stack: "layer list option")

datatype router = Router (router_stack: "layer list option")

record app =
  routes :: "(string \<times> handler list) list option"   \<comment> \<open>Express 3: the routes of each verb\<close>
  router4 :: "router option"                            \<comment> \<open>Express 4: \<open>app._router\<close>\<close>
  stack :: "layer list option"                          \<comment> \<open>a router of Express 4 itself\<close>
  router :: "router option access"                      \<comment> \<open>Express 5: \<open>app.router\<close>, a getter\<close>

text \<open>An element of the flattened list \<open>getStacks\<close> returns.\<close>

record stack_entry =
  routerPath :: "string option"
  route :: "route option"

record route_entry =
  entry_method :: string   \<comment> \<open>the property \<open>method\<close>\<close>
  path :: string

definition getPathFromRegex :: "string \<Rightarrow> string" where
  "getPathFromRegex regexp =
     unescape_slashes
       (replace_first (''?(?='' @ [CHR 0x5C] @ ''/|$)/i'') ''''
         (replace_first ''/^'' '''' regexp))"

definition combineStacks :: "stack_entry list \<Rightarrow> layer \<Rightarrow> error + stack_entry list" where
  "combineStacks acc layer =
     (case layer_handle layer of
        None \<Rightarrow> Inl TypeError
      | Some h \<Rightarrow>
          (case handle_stack h of
             Some children \<Rightarrow>
               (case layer_regexp layer of
                  None \<Rightarrow> Inl TypeError
                | Some re \<Rightarrow>
                    Inr (acc @ map (\<lambda>st. \<lparr>routerPath = Some (getPathFromRegex re),
                                           route = layer_route st\<rparr>) children))
           | None \<Rightarrow> Inr (acc @ [\<lparr>routerPath = None, route = layer_route layer\<rparr>])))"

fun reduce :: "('b \<Rightarrow> 'a \<Rightarrow> error + 'b) \<Rightarrow> 'b \<Rightarrow> 'a list \<Rightarrow> error + 'b" where
  "reduce f acc [] = Inr acc"
| "reduce f acc (x # xs) = (case f acc x of Inl e \<Rightarrow> Inl e | Inr acc' \<Rightarrow> reduce f acc' xs)"

text \<open>
  The body of the \<open>try\<close> block: \<open>None\<close> when the condition of its \<open>if\<close> is falsy, and
  \<open>Inl\<close> for the exception that the \<open>catch\<close> will swallow.
\<close>

definition express5Stacks :: "app \<Rightarrow> error + stack_entry list option" where
  "express5Stacks a =
     (case router a of
        Throws \<Rightarrow> Inl RouterAccessError
      | Returns None \<Rightarrow> Inr None
      | Returns (Some r) \<Rightarrow>
          (case router_stack r of
             None \<Rightarrow> Inr None
           | Some st \<Rightarrow> map_sum id Some (reduce combineStacks [] st)))"

definition getStacks :: "app \<Rightarrow> error + stack_entry list" where
  "getStacks a =
     (case routes a of
        Some table \<Rightarrow>
          Inr (map (\<lambda>r. \<lparr>routerPath = None, route = Some (Route None [r])\<rparr>)
                   (concat (map snd table)))
      | None \<Rightarrow>
     (case (case router4 a of None \<Rightarrow> None | Some r \<Rightarrow> router_stack r) of
        Some st \<Rightarrow> reduce combineStacks [] st
      | None \<Rightarrow>
     (case stack a of
        Some st \<Rightarrow> reduce combineStacks [] st
      | None \<Rightarrow>
     (case express5Stacks a of
        Inr (Some stacks) \<Rightarrow> Inr stacks
      | Inr None \<Rightarrow> Inr []
      | Inl err \<Rightarrow> Inr []))))"

text \<open>\<open>route.method ? route.method.toUpperCase() : null\<close>\<close>

definition handlerVerb :: "handler \<Rightarrow> string option" where
  "handlerVerb h =
     (case handler_method h of
        None \<Rightarrow> None
      | Some m \<Rightarrow> if m \<noteq> [] then Some (toUpperCase m) else None)"

text \<open>\<open>fragments.filter((s) => !!s)\<close>: the fragments that are present and not empty.\<close>

fun truthy :: "string option list \<Rightarrow> string list" where
  "truthy [] = []"
| "truthy (None # fs) = truthy fs"
| "truthy (Some f # fs) = (if f \<noteq> [] then f # truthy fs else truthy fs)"

definition routePath :: "string \<Rightarrow> stack_entry \<Rightarrow> route \<Rightarrow> handler \<Rightarrow> string" where
  "routePath cwd st r h =
     resolve cwd (concat (truthy [routerPath st, route_path r, handler_path h]))"

text \<open>
  The inner loop over \<open>stack.route.stack\<close>; \<open>routeLogged\<close> is the object that remembers
  the verbs already pushed for this route node.
\<close>

fun routeLoop ::
  "string \<Rightarrow> stack_entry \<Rightarrow> route \<Rightarrow> (string \<rightharpoonup> bool) \<Rightarrow> handler list \<Rightarrow> route_entry list"
where
  "routeLoop cwd st r routeLogged [] = []"
| "routeLoop cwd st r routeLogged (h # hs) =
     (case handlerVerb h of
        None \<Rightarrow> routeLoop cwd st r routeLogged hs
      | Some m \<Rightarrow>
          if routeLogged m \<noteq> Some True
          then \<lparr>entry_method = m, path = routePath cwd st r h\<rparr>
               # routeLoop cwd st r (routeLogged(m \<mapsto> True)) hs
          else routeLoop cwd st r routeLogged hs)"

definition stackRoutes :: "string \<Rightarrow> stack_entry \<Rightarrow> route_entry list" where
  "stackRoutes cwd st =
     (case route st of None \<Rightarrow> [] | Some r \<Rightarrow> routeLoop cwd st r Map.empty (route_stack r))"

definition extractRoutes :: "string \<Rightarrow> app \<Rightarrow> error + route_entry list" where
  "extractRoutes cwd a =
     (case getStacks a of
        Inl e \<Rightarrow> Inl e
      | Inr stacks \<Rightarrow> Inr (concat (map (stackRoutes cwd) stacks)))"

section \<open>The middleware (index.js)\<close>

subsection \<open>Masks and the helpers of \<open>./normalizers\<close>\<close>

text \<open>
  A mask is a regular expression.  It is modelled by its matcher: given the text that
  starts at a position, the length of the match that starts there, \<open>0\<close> for none.
\<close>

type_synonym mask = "string \<Rightarrow> nat"

definition wordChar :: "char \<Rightarrow> bool" where
  "wordChar c \<longleftrightarrow>
     c \<in> set ''abcdefghijklmnopqrstuvwxyzABCDEFGHIJKLMNOPQRSTUVWXYZ0123456789_''"

text \<open>
  \<open>expressPathParameterRegex = /:\w+(?:_\w+)*/\<close>: a colon and the longest run of word
  characters after it, at least one (the underscore is a word character, so the greedy
  \<open>\w+\<close> leaves nothing to the optional group).
\<close>

definition expressPathParameterRegex :: mask where
  "expressPathParameterRegex s =
     (case s of
        [] \<Rightarrow> 0
      | c # cs \<Rightarrow>
          if c = CHR '':'' \<and> takeWhile wordChar cs \<noteq> []
          then Suc (length (takeWhile wordChar cs)) else 0)"

text \<open>
  \<open>normalizePath\<close> and \<open>normalizeStatusCode\<close> come from \<open>./normalizers\<close>, and the
  working directory from the process; the middleware takes them as given.
\<close>

record env =
  normalizePath :: "string \<Rightarrow> mask list \<Rightarrow> string"
  normalizeStatusCode :: "nat \<Rightarrow> string"
  cwd :: string

subsection \<open>Requests, options and the state of one middleware instance\<close>

record request =
  originalUrl :: string
  req_method :: string
  req_app :: app
  req_contentLength :: "string option"   \<comment> \<open>\<open>req.get('Content-Length')\<close>\<close>

record response =
  statusCode :: nat
  res_contentLength :: "string option"   \<comment> \<open>\<open>res.get('Content-Length')\<close>\<close>

type_synonym labels = "(string \<times> string) list"

text \<open>The double that \<open>Number(s)\<close> evaluates to; \<open>NaN\<close> when \<open>s\<close> is not a numeric literal.\<close>

datatype number = Number string

record options =
  metricsPath :: string
  authenticate :: "(request \<Rightarrow> bool access) option"
  collectAnyPaths :: bool
  requestLengthBuckets :: "real list"
  responseLengthBuckets :: "real list"
  extraMasks :: "mask list"
  transformLabels :: "(labels \<Rightarrow> request \<Rightarrow> response \<Rightarrow> error + labels) option"
  normalizeStatus :: bool
  sampleRate :: real

text \<open>
  The closure variables of \<open>createExpressPrometheusExporterMiddleware\<close>, and the four
  metrics as the lists of the calls made on them.
\<close>

record state =
  allowedRoutes :: "route_entry list"
  isAllowedRoutesInitialized :: bool
  sampleCount :: nat
  requestCount :: "labels list"
  requestDuration :: "(labels \<times> real) list"
  requestLength :: "(labels \<times> number) list"
  responseLength :: "(labels \<times> number) list"

definition initialState :: state where
  "initialState =
     \<lparr>allowedRoutes = [], isAllowedRoutesInitialized = False, sampleCount = 0,
      requestCount = [], requestDuration = [], requestLength = [], responseLength = []\<rparr>"

subsection \<open>The recording callback\<close>

definition isPathAllowed :: "state \<Rightarrow> string \<Rightarrow> string \<Rightarrow> bool" where
  "isPathAllowed s m p =
     (if length (allowedRoutes s) = 0 then False
      else list_ex (\<lambda>r. entry_method r = m \<and> path r = p) (allowedRoutes s))"

definition normalizedAllowedRoutes :: "env \<Rightarrow> options \<Rightarrow> route_entry list \<Rightarrow> route_entry list"
where
  "normalizedAllowedRoutes e opts rs =
     map (\<lambda>r. \<lparr>entry_method = entry_method r,
               path = normalizePath e (path r) (extraMasks opts @ [expressPathParameterRegex])\<rparr>)
         rs"

definition initializeAllowedRoutes :: "env \<Rightarrow> options \<Rightarrow> request \<Rightarrow> state \<Rightarrow> error + state"
where
  "initializeAllowedRoutes e opts req s =
     (case extractRoutes (cwd e) (req_app req) of
        Inl err \<Rightarrow> Inl err
      | Inr rs \<Rightarrow>
          Inr (s\<lparr>allowedRoutes := allowedRoutes s @ normalizedAllowedRoutes e opts rs,
                 isAllowedRoutesInitialized := True\<rparr>))"

definition samplePercent :: nat where
  "samplePercent = 100"

text \<open>Line 108: the new value of \<open>sampleCount\<close>.\<close>

definition advance :: "nat \<Rightarrow> nat" where
  "advance c = (if c = samplePercent then 0 else c + 1)"

text \<open>
  Line 97.  The quotient is exact here; for the counts 0 to 100 and the rates 0, 0.5 and 1
  the comparison of the doubles gives the same answer.
\<close>

definition isSampled :: "options \<Rightarrow> state \<Rightarrow> bool" where
  "isSampled opts s \<longleftrightarrow> real (sampleCount s) / real samplePercent \<le> sampleRate opts"

text \<open>\<open>statusCode.toString()\<close>: the decimal digits.\<close>

function toString :: "nat \<Rightarrow> string" where
  "toString n =
     (if n < 10 then [''0123456789'' ! n]
      else toString (n div 10) @ [''0123456789'' ! (n mod 10)])"
  by pat_completeness auto
termination
  by (relation "measure id") auto

declare toString.simps [simp del]

text \<open>
  Lines 104 to 123 of the callback: it either returns early, with the state it leaves and
  the exception that escapes if there is one (\<open>Inl\<close>), or goes on to assemble the labels,
  with the state so far and the normalized path (\<open>Inr\<close>).
\<close>

definition admit ::
  "env \<Rightarrow> options \<Rightarrow> request \<Rightarrow> state \<Rightarrow> (state \<times> error option) + (state \<times> string)"
where
  "admit e opts req s =
     (if originalUrl req = metricsPath opts then Inl (s, None)
      else
        let s1 = s\<lparr>sampleCount := advance (sampleCount s)\<rparr> in
        if \<not> isSampled opts s1 then Inl (s1, None)
        else
          let p = normalizePath e (originalUrl req) (extraMasks opts) in
          if \<not> collectAnyPaths opts then
            (case (if \<not> isAllowedRoutesInitialized s1
                   then initializeAllowedRoutes e opts req s1 else Inr s1) of
               Inl err \<Rightarrow> Inl (s1, Some err)
             | Inr s2 \<Rightarrow>
                 if \<not> isPathAllowed s2 (req_method req) p then Inl (s2, None)
                 else Inr (s2, p))
          else Inr (s1, p))"

definition baseLabels :: "env \<Rightarrow> options \<Rightarrow> request \<Rightarrow> response \<Rightarrow> string \<Rightarrow> labels" where
  "baseLabels e opts req res p =
     [(''route'', p), (''method'', req_method req),
      (''status'', if normalizeStatus opts then normalizeStatusCode e (statusCode res)
                   else toString (statusCode res))]"

definition observeLength ::
  "real list \<Rightarrow> string option \<Rightarrow> labels \<Rightarrow> (labels \<times> number) list \<Rightarrow> (labels \<times> number) list"
where
  "observeLength buckets header ls metric =
     (if length buckets \<noteq> 0 then
        (case header of
           None \<Rightarrow> metric
         | Some len \<Rightarrow> if len \<noteq> [] then metric @ [(ls, Number len)] else metric)
      else metric)"

text \<open>
  Lines 125 to 153: label assembly and the four metric updates.  The hook changes the
  labels in place; here it returns them, or the exception it throws.
\<close>

definition record_metrics ::
  "options \<Rightarrow> request \<Rightarrow> response \<Rightarrow> real \<Rightarrow> labels \<Rightarrow> state \<Rightarrow> state \<times> error option"
where
  "record_metrics opts req res time ls0 s =
     (case (case transformLabels opts of
              None \<Rightarrow> Inr ls0
            | Some f \<Rightarrow> f ls0 req res) of
        Inl err \<Rightarrow> (s, Some err)
      | Inr ls \<Rightarrow>
          (s\<lparr>requestCount := requestCount s @ [ls],
             requestDuration := requestDuration s @ [(ls, time / 1000)],
             requestLength :=
               observeLength (requestLengthBuckets opts) (req_contentLength req) ls
                 (requestLength s),
             responseLength :=
               observeLength (responseLengthBuckets opts) (res_contentLength res) ls
                 (responseLength s)\<rparr>,
           None))"

definition recordResponse ::
  "env \<Rightarrow> options \<Rightarrow> request \<Rightarrow> response \<Rightarrow> real \<Rightarrow> state \<Rightarrow> state \<times> error option"
where
  "recordResponse e opts req res time s =
     (case admit e opts req s of
        Inl early \<Rightarrow> early
      | Inr (s', p) \<Rightarrow> record_metrics opts req res time (baseLabels e opts req res p) s')"

text \<open>
  The callback runs once per response; an exception leaves one run and the state stays
  for the next.
\<close>

fun run :: "env \<Rightarrow> options \<Rightarrow> (request \<times> response \<times> real) list \<Rightarrow> state \<Rightarrow> state" where
  "run e opts [] s = s"
| "run e opts ((req, res, time) # rest) s =
     run e opts rest (fst (recordResponse e opts req res time s))"

subsection \<open>The scrape route\<close>

datatype reply =
    Next
  | End "(string \<times> string) list" string  \<comment> \<open>the headers set and the body written\<close>

text \<open>
  \<open>contentType\<close> and \<open>metrics\<close> are what the registry of the metrics library gives when the
  handler asks.
\<close>

definition metricsRoute :: "options \<Rightarrow> string \<Rightarrow> string \<Rightarrow> request \<Rightarrow> reply" where
  "metricsRoute opts contentType metrics req =
     (let denied =
        (case authenticate opts of
           None \<Rightarrow> False
         | Some hook \<Rightarrow>
             let result = (case hook req of Throws \<Rightarrow> False | Returns r \<Rightarrow> r)
             in \<not> result)
      in if denied then Next else End [(''Content-Type'', contentType)] metrics)"

subsection \<open>Sequences of gate evaluations\<close>

text \<open>
  Lines 108 and 110 alone, \<open>n\<close> times over: each evaluation gives the counter it leaves
  and whether the request is admitted.
\<close>

fun evaluations :: "options \<Rightarrow> state \<Rightarrow> nat \<Rightarrow> (nat \<times> bool) list" where
  "evaluations opts s 0 = []"
| "evaluations opts s (Suc n) =
     (let s1 = s\<lparr>sampleCount := advance (sampleCount s)\<rparr>
      in (sampleCount s1, isSampled opts s1) # evaluations opts s1 n)"

text \<open>The number of requests of a sequence that are not for the scrape path.\<close>

definition evaluated :: "options \<Rightarrow> (request \<times> response \<times> real) list \<Rightarrow> nat" where
  "evaluated opts rs = length (filter (\<lambda>r. originalUrl (fst r) \<noteq> metricsPath opts) rs)"

section \<open>The normalizers, from their description\<close>

text \<open>
  Modelled from the spec: \<open>normalizePath\<close> of \<open>./normalizers\<close>, which the middleware calls
  and which is not among the sources verified here.  It applies each mask to the raw path
  in the configured order and replaces every match, leftmost first and without overlap,
  by the placeholder \<open>#val\<close>; text already replaced is not matched again.  A built-in
  mask always comes last, after the masks it is given: it recognizes the path segments
  shaped like a route parameter and replaces each by the placeholder.  The spec's examples
  fix which segments those are: \<open>42\<close> and \<open>7\<close> are replaced, \<open>users\<close>, \<open>widgets\<close> and
  \<open>unregistered\<close> are kept.  Here they are the segments that are a number, and those that
  are a parameter placeholder of the framework (a colon and a word).
\<close>

datatype tok = Ch char | Val

fun literalPrefix :: "tok list \<Rightarrow> string" where
  "literalPrefix (Ch c # ts) = c # literalPrefix ts"
| "literalPrefix ts = []"

fun applyMask :: "mask \<Rightarrow> nat \<Rightarrow> tok list \<Rightarrow> tok list" where
  "applyMask m k [] = []"
| "applyMask m k (Val # ts) = Val # applyMask m 0 ts"
| "applyMask m (Suc k) (Ch c # ts) = applyMask m k ts"
| "applyMask m 0 (Ch c # ts) =
     (case m (literalPrefix (Ch c # ts)) of
        0 \<Rightarrow> Ch c # applyMask m 0 ts
      | Suc n \<Rightarrow> Val # applyMask m n ts)"

fun render :: "tok list \<Rightarrow> string" where
  "render [] = []"
| "render (Ch c # ts) = c # render ts"
| "render (Val # ts) = ''#val'' @ render ts"

definition digitChar :: "char \<Rightarrow> bool" where
  "digitChar c \<longleftrightarrow> c \<in> set ''0123456789''"

definition routeParameterShaped :: "string \<Rightarrow> bool" where
  "routeParameterShaped seg \<longleftrightarrow>
     (case seg of
        [] \<Rightarrow> False
      | c # cs \<Rightarrow>
          list_all digitChar (c # cs) \<or> (c = CHR '':'' \<and> cs \<noteq> [] \<and> list_all wordChar cs))"

text \<open>The segments of a path, between its slashes, and the path of its segments.\<close>

fun segments :: "tok list \<Rightarrow> tok list list" where
  "segments [] = [[]]"
| "segments (t # ts) =
     (if t = Ch (CHR ''/'') then [] # segments ts
      else (case segments ts of [] \<Rightarrow> [[t]] | g # gs \<Rightarrow> (t # g) # gs))"

fun unsegments :: "tok list list \<Rightarrow> tok list" where
  "unsegments [] = []"
| "unsegments [g] = g"
| "unsegments (g # h # gs) = g @ Ch (CHR ''/'') # unsegments (h # gs)"

text \<open>The built-in mask on one segment: a segment with replaced text in it is left alone.\<close>

definition builtinMask :: "tok list \<Rightarrow> tok list" where
  "builtinMask seg =
     (if map Ch (literalPrefix seg) = seg \<and> routeParameterShaped (literalPrefix seg)
      then [Val] else seg)"

definition normalizePath_spec :: "string \<Rightarrow> mask list \<Rightarrow> string" where
  "normalizePath_spec rawPath masks =
     render (unsegments (map builtinMask (segments
       (foldl (\<lambda>ts m. applyMask m 0 ts) (map Ch rawPath) masks))))"

text \<open>
  Modelled from the spec: \<open>normalizeStatusCode\<close> of \<open>./normalizers\<close>, which maps a numeric
  status to its coarse class, \<open>2xx\<close> for 200 to 299.
\<close>

definition normalizeStatusCode_spec :: "nat \<Rightarrow> string" where
  "normalizeStatusCode_spec code = toString (code div 100) @ ''xx''"

section \<open>Concrete inputs\<close>

definition specEnv :: env where
  "specEnv =
     \<lparr>normalizePath = normalizePath_spec, normalizeStatusCode = normalizeStatusCode_spec,
      cwd = ''/srv''\<rparr>"

text \<open>\<open>defaultOptions\<close> of the source, as far as the callback and the route read them.\<close>

definition defaultOptions :: options where
  "defaultOptions =
     \<lparr>metricsPath = ''/metrics'', authenticate = None, collectAnyPaths = False,
      requestLengthBuckets = [], responseLengthBuckets = [], extraMasks = [],
      transformLabels = None, normalizeStatus = True, sampleRate = 1\<rparr>"

text \<open>An Express 4 application with \<open>GET /a\<close>, \<open>POST /a\<close> and \<open>GET /b\<close>.\<close>

definition abApp :: app where
  "abApp =
     \<lparr>routes = None,
      router4 = Some (Router (Some
        [Layer (Some ''/^/a/?$/i'')
           (Some (Route (Some ''/a'') [Handler (Some ''get'') None, Handler (Some ''post'') None]))
           (Some (Handle None)),
         Layer (Some ''/^/b/?$/i'')
           (Some (Route (Some ''/b'') [Handler (Some ''get'') None]))
           (Some (Handle None))])),
      stack = None,
      router = Throws\<rparr>"

definition getRequest :: "string \<Rightarrow> request" where
  "getRequest url =
     \<lparr>originalUrl = url, req_method = ''GET'', req_app = abApp, req_contentLength = None\<rparr>"

definition okResponse :: response where
  "okResponse = \<lparr>statusCode = 200, res_contentLength = None\<rparr>"

text \<open>The state after the first request for \<open>/a\<close> has been let through.\<close>

definition catalogState :: state where
  "catalogState =
     initialState\<lparr>allowedRoutes :=
        [\<lparr>entry_method = ''GET'', path = ''/a''\<rparr>, \<lparr>entry_method = ''POST'', path = ''/a''\<rparr>,
         \<lparr>entry_method = ''GET'', path = ''/b''\<rparr>],
       isAllowedRoutesInitialized := True, sampleCount := 1\<rparr>"

definition throwingTransform :: "labels \<Rightarrow> request \<Rightarrow> response \<Rightarrow> error + labels" where
  "throwingTransform ls req res = Inl TransformError"

definition throwingOptions :: options where
  "throwingOptions = defaultOptions\<lparr>transformLabels := Some throwingTransform\<rparr>"




text \<open>A route node under a router mounted at \<open>/api\<close>.\<close>

definition apiRoute :: route where
  "apiRoute =
     Route (Some ''/users'')
       [Handler (Some ''get'') None, Handler (Some ''post'') None,
        Handler (Some ''get'') (Some ''/again''), Handler None None]"

definition apiEntry :: stack_entry where
  "apiEntry = \<lparr>routerPath = Some ''/api/'', route = Some apiRoute\<rparr>"

text \<open>
  An application of Express 4 before its router exists: reading \<open>app.router\<close> throws.
\<close>

definition throwingApp :: app where
  "throwingApp = \<lparr>routes = None, router4 = None, stack = None, router = Throws\<rparr>"

text \<open>
  A router whose layers carry no \<open>regexp\<close>, with one sub-router mounted: it is read
  through \<open>app.stack\<close>.
\<close>

definition noRegexpRouter :: app where
  "noRegexpRouter =
     \<lparr>routes = None, router4 = None,
      stack = Some
        [Layer None None
           (Some (Handle (Some
              [Layer None (Some (Route (Some ''/x'') [Handler (Some ''get'') None]))
                 (Some (Handle None))])))],
      router = Returns None\<rparr>"

definition noRegexpRequest :: request where
  "noRegexpRequest = (getRequest ''/x'')\<lparr>req_app := noRegexpRouter\<rparr>"



section \<open>The sample counter\<close>

lemma advance_mod: "c \<le> 100 \<Longrightarrow> advance c = (c + 1) mod 101"
  by (simp add: advance_def samplePercent_def)

lemma advance_le: "c \<le> 100 \<Longrightarrow> advance c \<le> 100"
  by (simp add: advance_def samplePercent_def)

lemma sampleCount_initializeAllowedRoutes:
  "initializeAllowedRoutes e opts req s = Inr s' \<Longrightarrow> sampleCount s' = sampleCount s"
  by (auto simp: initializeAllowedRoutes_def split: sum.splits)

lemma sampleCount_record_metrics:
  "sampleCount (fst (record_metrics opts req res time ls s)) = sampleCount s"
  by (simp add: record_metrics_def split: sum.splits option.splits)

lemma admit_scrape:
  "originalUrl req = metricsPath opts \<Longrightarrow> admit e opts req s = Inl (s, None)"
  by (simp add: admit_def)

lemma sampleCount_admit_Inl:
  "originalUrl req \<noteq> metricsPath opts \<Longrightarrow> admit e opts req s = Inl (s', err) \<Longrightarrow>
   sampleCount s' = advance (sampleCount s)"
  by (auto simp: admit_def Let_def split: if_splits sum.splits
           dest: sampleCount_initializeAllowedRoutes)

lemma sampleCount_admit_Inr:
  "admit e opts req s = Inr (s', p) \<Longrightarrow>
   originalUrl req \<noteq> metricsPath opts \<and> sampleCount s' = advance (sampleCount s)"
  by (auto simp: admit_def Let_def split: if_splits sum.splits
           dest: sampleCount_initializeAllowedRoutes)

lemma sampleCount_recordResponse:
  "sampleCount (fst (recordResponse e opts req res time s)) =
     (if originalUrl req = metricsPath opts then sampleCount s else advance (sampleCount s))"
proof (cases "admit e opts req s")
  case (Inl early)
  obtain s' err where early: "early = (s', err)" by (cases early)
  show ?thesis
  proof (cases "originalUrl req = metricsPath opts")
    case True
    then show ?thesis by (simp add: recordResponse_def admit_scrape)
  next
    case False
    with Inl early sampleCount_admit_Inl [of req opts e s s' err]
    show ?thesis by (simp add: recordResponse_def)
  qed
next
  case (Inr cont)
  obtain s' p where cont: "cont = (s', p)" by (cases cont)
  with Inr sampleCount_admit_Inr [of e opts req s s' p]
  show ?thesis by (simp add: recordResponse_def sampleCount_record_metrics)
qed

lemma sampleCount_run:
  "sampleCount s \<le> 100 \<Longrightarrow>
   sampleCount (run e opts rs s) = (sampleCount s + evaluated opts rs) mod 101"
proof (induction rs arbitrary: s)
  case Nil
  then show ?case by (simp add: evaluated_def)
next
  case (Cons r rs)
  obtain req res time where r: "r = (req, res, time)" by (cases r)
  let ?s1 = "fst (recordResponse e opts req res time s)"
  show ?case
  proof (cases "originalUrl req = metricsPath opts")
    case True
    then have "sampleCount ?s1 = sampleCount s" by (simp add: sampleCount_recordResponse)
    with Cons True r show ?thesis by (simp add: evaluated_def)
  next
    case False
    then have c: "sampleCount ?s1 = (sampleCount s + 1) mod 101"
      using Cons.prems by (simp add: sampleCount_recordResponse advance_mod)
    then have "sampleCount ?s1 \<le> 100" by simp
    from Cons.IH [OF this] c False r show ?thesis
      by (simp add: evaluated_def mod_add_left_eq)
  qed
qed

lemma mod_101_step: "((a + 1) mod 101 + j + 1) mod (101::nat) = (a + Suc j + 1) mod 101"
proof -
  have "((a + 1) mod 101 + (j + 1)) mod (101::nat) = ((a + 1) + (j + 1)) mod 101"
    by (rule mod_add_left_eq)
  then show ?thesis by (simp add: ac_simps)
qed

lemma length_evaluations: "length (evaluations opts s n) = n"
  by (induction n arbitrary: s) (simp_all add: Let_def)

lemma evaluations_nth:
  "sampleCount s \<le> 100 \<Longrightarrow> k < n \<Longrightarrow>
   evaluations opts s n ! k =
     ((sampleCount s + k + 1) mod 101,
      real ((sampleCount s + k + 1) mod 101) / 100 \<le> sampleRate opts)"
proof (induction n arbitrary: s k)
  case 0
  then show ?case by simp
next
  case (Suc n)
  let ?s1 = "s\<lparr>sampleCount := advance (sampleCount s)\<rparr>"
  have c1: "sampleCount ?s1 = (sampleCount s + 1) mod 101"
    using Suc.prems(1) by (simp add: advance_mod)
  show ?case
  proof (cases k)
    case 0
    with c1 show ?thesis by (simp add: Let_def isSampled_def samplePercent_def)
  next
    case (Suc j)
    have le: "sampleCount ?s1 \<le> 100" using c1 by simp
    have j: "j < n" using Suc Suc.prems(2) by simp
    have "(sampleCount ?s1 + j + 1) mod 101 = (sampleCount s + k + 1) mod 101"
      unfolding c1 Suc by (rule mod_101_step)
    with Suc.IH [OF le j] Suc show ?thesis by (simp add: Let_def)
  qed
qed

lemma admit_not_sampled:
  "originalUrl req \<noteq> metricsPath opts \<Longrightarrow>
   \<not> isSampled opts (s\<lparr>sampleCount := advance (sampleCount s)\<rparr>) \<Longrightarrow>
   admit e opts req s = Inl (s\<lparr>sampleCount := advance (sampleCount s)\<rparr>, None)"
  by (simp add: admit_def Let_def)

lemma admit_iff_sampled:
  "collectAnyPaths opts \<Longrightarrow> originalUrl req \<noteq> metricsPath opts \<Longrightarrow>
   (\<exists>s' p. admit e opts req s = Inr (s', p)) \<longleftrightarrow>
     isSampled opts (s\<lparr>sampleCount := advance (sampleCount s)\<rparr>)"
  by (simp add: admit_def Let_def)

text \<open>
  Claim C1, as the code has it.  From the initial state the counter left by the
  \<open>k+1\<close>-th evaluation is \<open>(k+1) mod 101\<close>: it runs through 1, ..., 100 and then 0, a cycle
  of 101 evaluations.  With \<open>sampleRate = 1\<close> every evaluation is admitted; with
  \<open>sampleRate = 0\<close> exactly the evaluations that leave the counter at 0 are admitted; with
  \<open>sampleRate = 0.5\<close> exactly those that leave it in 0..50 are admitted, and those that
  leave it in 51..100 are rejected.
\<close>

theorem gate_cycle:
  "k < n \<Longrightarrow>
   fst (evaluations opts initialState n ! k) = (k + 1) mod 101 \<and>
   snd (evaluations (opts\<lparr>sampleRate := 1\<rparr>) initialState n ! k) \<and>
   (snd (evaluations (opts\<lparr>sampleRate := 0\<rparr>) initialState n ! k) \<longleftrightarrow> (k + 1) mod 101 = 0) \<and>
   (snd (evaluations (opts\<lparr>sampleRate := 1 / 2\<rparr>) initialState n ! k) \<longleftrightarrow> (k + 1) mod 101 \<le> 50)"
proof -
  assume k: "k < n"
  have z: "sampleCount initialState \<le> 100" by (simp add: initialState_def)
  have c: "sampleCount initialState = 0" by (simp add: initialState_def)
  have b: "(k + 1) mod 101 \<le> 100" by simp
  show ?thesis
    using evaluations_nth [OF z k, of opts]
          evaluations_nth [OF z k, of "opts\<lparr>sampleRate := 1\<rparr>"]
          evaluations_nth [OF z k, of "opts\<lparr>sampleRate := 0\<rparr>"]
          evaluations_nth [OF z k, of "opts\<lparr>sampleRate := 1 / 2\<rparr>"] b
    by (simp add: c)
qed

theorem gate_cycle_witness:
  "(100::nat) < 101 \<and>
   fst (evaluations defaultOptions initialState 101 ! 100) = 0 \<and>
   snd (evaluations (defaultOptions\<lparr>sampleRate := 1\<rparr>) initialState 101 ! 100) \<and>
   snd (evaluations (defaultOptions\<lparr>sampleRate := 0\<rparr>) initialState 101 ! 100) \<and>
   snd (evaluations (defaultOptions\<lparr>sampleRate := 1 / 2\<rparr>) initialState 101 ! 100)"
  using gate_cycle [of 100 101 defaultOptions] by simp

text \<open>
  The claim as written says that no evaluation is admitted with \<open>sampleRate = 0\<close>.  The
  101st evaluation leaves the counter at 0 and is admitted, since \<open>0 / 100 \<le> 0\<close>.
\<close>

theorem gate_rate_zero_admits:
  "snd (evaluations (defaultOptions\<lparr>sampleRate := 0\<rparr>) initialState 101 ! 100)"
proof -
  have z: "sampleCount initialState \<le> 100" by (simp add: initialState_def)
  have k: "(100::nat) < 101" by simp
  show ?thesis
    using evaluations_nth [OF z k, of "defaultOptions\<lparr>sampleRate := 0\<rparr>"]
    by (simp add: initialState_def)
qed

text \<open>
  Claim C4.  A request whose raw URL is the scrape path leaves the whole state as it
  was, the sample counter and the four metrics included, and raises nothing.
\<close>

theorem scrape_request_changes_nothing:
  "originalUrl req = metricsPath opts \<Longrightarrow> recordResponse e opts req res time s = (s, None)"
  by (simp add: recordResponse_def admit_scrape)

theorem scrape_request_changes_nothing_witness:
  "originalUrl (getRequest ''/metrics'') = metricsPath defaultOptions \<and>
   recordResponse specEnv defaultOptions (getRequest ''/metrics'') okResponse 3
     (initialState\<lparr>sampleCount := 7\<rparr>) = (initialState\<lparr>sampleCount := 7\<rparr>, None)"
proof -
  have h: "originalUrl (getRequest ''/metrics'') = metricsPath defaultOptions"
    by (simp add: getRequest_def defaultOptions_def)
  show ?thesis
    using h scrape_request_changes_nothing [OF h] by simp
qed

text \<open>
  Claim C5, as the code has it.  After any sequence of requests from the initial state
  the counter is the number of requests not for the scrape path, modulo 101; so it lies
  in 0..100, the value 100 included.  One request advances it by exactly one step of the
  rule of line 108, and a request for the scrape path by none.
\<close>

theorem sampleCount_invariant:
  "sampleCount (run e opts rs initialState) = evaluated opts rs mod 101 \<and>
   sampleCount (run e opts rs initialState) \<le> 100 \<and>
   sampleCount (fst (recordResponse e opts req res time s)) =
     (if originalUrl req = metricsPath opts then sampleCount s
      else if sampleCount s = 100 then 0 else sampleCount s + 1)"
proof -
  have z: "sampleCount initialState \<le> 100" by (simp add: initialState_def)
  have "sampleCount (run e opts rs initialState) = evaluated opts rs mod 101"
    using sampleCount_run [OF z, of e opts rs] by (simp add: initialState_def)
  then show ?thesis
    by (simp add: sampleCount_recordResponse advance_def samplePercent_def)
qed

theorem sampleCount_invariant_witness:
  "sampleCount (run specEnv defaultOptions
      [(getRequest ''/a'', okResponse, 1), (getRequest ''/metrics'', okResponse, 1),
       (getRequest ''/zzz'', okResponse, 1)] initialState) = 2 \<and>
   sampleCount (fst (recordResponse specEnv defaultOptions (getRequest ''/a'') okResponse 1
      (initialState\<lparr>sampleCount := 100\<rparr>))) = 0"
  using sampleCount_invariant [of specEnv defaultOptions
      "[(getRequest ''/a'', okResponse, 1), (getRequest ''/metrics'', okResponse, 1),
        (getRequest ''/zzz'', okResponse, 1)]"
      "getRequest ''/a''" okResponse 1 "initialState\<lparr>sampleCount := 100\<rparr>"]
  by (simp add: evaluated_def getRequest_def defaultOptions_def)

text \<open>
  The claim as written says that the counter never takes the value 100.  After 100
  requests for \<open>/a\<close> it is 100.
\<close>

theorem sampleCount_reaches_100:
  "\<not> sampleCount (run specEnv defaultOptions
        (replicate 100 (getRequest ''/a'', okResponse, 1)) initialState) < 100"
proof -
  have z: "sampleCount initialState \<le> 100" by (simp add: initialState_def)
  have "evaluated defaultOptions (replicate 100 (getRequest ''/a'', okResponse, 1)) = 100"
    by (simp add: evaluated_def getRequest_def defaultOptions_def)
  with sampleCount_run [OF z, of specEnv defaultOptions
      "replicate 100 (getRequest ''/a'', okResponse, 1)"]
  show ?thesis by (simp add: initialState_def)
qed

section \<open>What a request leaves of the metrics\<close>

lemma metrics_initializeAllowedRoutes:
  "initializeAllowedRoutes e opts req s = Inr s' \<Longrightarrow>
   requestCount s' = requestCount s \<and> requestDuration s' = requestDuration s \<and>
   requestLength s' = requestLength s \<and> responseLength s' = responseLength s"
  by (auto simp: initializeAllowedRoutes_def split: sum.splits)

lemma metrics_admit_Inl:
  "admit e opts req s = Inl (s', err) \<Longrightarrow>
   requestCount s' = requestCount s \<and> requestDuration s' = requestDuration s \<and>
   requestLength s' = requestLength s \<and> responseLength s' = responseLength s"
  by (auto simp: admit_def Let_def split: if_splits sum.splits
           dest: metrics_initializeAllowedRoutes)

lemma metrics_admit_Inr:
  "admit e opts req s = Inr (s', p) \<Longrightarrow>
   requestCount s' = requestCount s \<and> requestDuration s' = requestDuration s \<and>
   requestLength s' = requestLength s \<and> responseLength s' = responseLength s"
  by (auto simp: admit_def Let_def split: if_splits sum.splits
           dest: metrics_initializeAllowedRoutes)

subsection \<open>The example application\<close>

lemma extractRoutes_abApp:
  "extractRoutes ''/srv'' abApp =
     Inr [\<lparr>entry_method = ''GET'', path = ''/a''\<rparr>, \<lparr>entry_method = ''POST'', path = ''/a''\<rparr>,
          \<lparr>entry_method = ''GET'', path = ''/b''\<rparr>]"
  by (simp add: extractRoutes_def getStacks_def abApp_def combineStacks_def stackRoutes_def
        handlerVerb_def routePath_def resolve_def toUpperCase_def upper_char_def)

lemma normalizePath_spec_a:
  "normalizePath_spec ''/a'' [expressPathParameterRegex] = ''/a'' \<and>
   normalizePath_spec ''/b'' [expressPathParameterRegex] = ''/b'' \<and>
   normalizePath_spec ''/a'' [] = ''/a''"
  by (simp add: normalizePath_spec_def expressPathParameterRegex_def wordChar_def
        builtinMask_def routeParameterShaped_def digitChar_def)

lemma admit_abApp:
  "metricsPath opts = ''/metrics'' \<Longrightarrow> sampleRate opts = 1 \<Longrightarrow> extraMasks opts = [] \<Longrightarrow>
   \<not> collectAnyPaths opts \<Longrightarrow> originalUrl req = ''/a'' \<Longrightarrow> req_method req = ''GET'' \<Longrightarrow>
   req_app req = abApp \<Longrightarrow>
   admit specEnv opts req initialState = Inr (catalogState, ''/a'')"
  using extractRoutes_abApp normalizePath_spec_a
  by (simp add: admit_def Let_def catalogState_def initialState_def advance_def
        samplePercent_def isSampled_def specEnv_def initializeAllowedRoutes_def
        isPathAllowed_def normalizedAllowedRoutes_def)


text \<open>
  Claim C10.  When a request has reached label assembly and the \<open>transformLabels\<close> hook
  throws on its labels, the callback ends with that exception and none of the four
  metrics has been touched: the counter is not incremented and no duration, request size
  or response size is observed.
\<close>
theorem transform_error_aborts:
  "admit e opts req s = Inr (s1, p) \<Longrightarrow> transformLabels opts = Some f \<Longrightarrow>
   f (baseLabels e opts req res p) req res = Inl err \<Longrightarrow>
   recordResponse e opts req res time s = (s1, Some err) \<and>
   requestCount s1 = requestCount s \<and> requestDuration s1 = requestDuration s \<and>
   requestLength s1 = requestLength s \<and> responseLength s1 = responseLength s"
  using metrics_admit_Inr [of e opts req s s1 p]
  by (simp add: recordResponse_def record_metrics_def)

theorem transform_error_aborts_witness:
  "admit specEnv throwingOptions (getRequest ''/a'') initialState = Inr (catalogState, ''/a'') \<and>
   transformLabels throwingOptions = Some throwingTransform \<and>
   throwingTransform (baseLabels specEnv throwingOptions (getRequest ''/a'') okResponse ''/a'')
     (getRequest ''/a'') okResponse = Inl TransformError \<and>
   recordResponse specEnv throwingOptions (getRequest ''/a'') okResponse 5 initialState =
     (catalogState, Some TransformError) \<and>
   requestCount catalogState = [] \<and> requestDuration catalogState = [] \<and>
   requestLength catalogState = [] \<and> responseLength catalogState = []"
proof -
  have a: "admit specEnv throwingOptions (getRequest ''/a'') initialState =
             Inr (catalogState, ''/a'')"
    by (rule admit_abApp) (simp_all add: throwingOptions_def defaultOptions_def getRequest_def)
  have t: "transformLabels throwingOptions = Some throwingTransform"
    by (simp add: throwingOptions_def)
  have f: "throwingTransform
             (baseLabels specEnv throwingOptions (getRequest ''/a'') okResponse ''/a'')
             (getRequest ''/a'') okResponse = Inl TransformError"
    by (simp add: throwingTransform_def)
  show ?thesis
    using a t f transform_error_aborts [OF a t f, of 5]
    by (simp add: initialState_def)
qed




text \<open>
  Claim C9.  With an \<open>authenticate\<close> hook that throws or returns a falsy value the handler
  of the scrape route calls \<open>next\<close> and writes nothing; with a hook that returns a truthy
  value, or with no hook, it sets the registry's content type and ends the response with
  the registry's metrics.
\<close>

theorem scrape_route_authentication:
  "(authenticate opts = Some hook \<and> (hook req = Throws \<or> hook req = Returns False)
      \<longrightarrow> metricsRoute opts contentType metrics req = Next) \<and>
   (authenticate opts = None \<or> (authenticate opts = Some hook \<and> hook req = Returns True)
      \<longrightarrow> metricsRoute opts contentType metrics req =
            End [(''Content-Type'', contentType)] metrics)"
  by (auto simp: metricsRoute_def Let_def)

theorem scrape_route_authentication_witness:
  "metricsRoute (defaultOptions\<lparr>authenticate := Some (\<lambda>r. Throws)\<rparr>)
      ''text/plain'' ''up 1'' (getRequest ''/metrics'') = Next \<and>
   metricsRoute (defaultOptions\<lparr>authenticate := Some (\<lambda>r. Returns False)\<rparr>)
      ''text/plain'' ''up 1'' (getRequest ''/metrics'') = Next \<and>
   metricsRoute (defaultOptions\<lparr>authenticate := Some (\<lambda>r. Returns True)\<rparr>)
      ''text/plain'' ''up 1'' (getRequest ''/metrics'') =
        End [(''Content-Type'', ''text/plain'')] ''up 1'' \<and>
   metricsRoute defaultOptions ''text/plain'' ''up 1'' (getRequest ''/metrics'') =
        End [(''Content-Type'', ''text/plain'')] ''up 1''"
  using scrape_route_authentication
          [of "defaultOptions\<lparr>authenticate := Some (\<lambda>r. Throws)\<rparr>" "\<lambda>r. Throws"
              "getRequest ''/metrics''" "''text/plain''" "''up 1''"]
        scrape_route_authentication
          [of "defaultOptions\<lparr>authenticate := Some (\<lambda>r. Returns False)\<rparr>"
              "\<lambda>r. Returns False" "getRequest ''/metrics''" "''text/plain''" "''up 1''"]
        scrape_route_authentication
          [of "defaultOptions\<lparr>authenticate := Some (\<lambda>r. Returns True)\<rparr>"
              "\<lambda>r. Returns True" "getRequest ''/metrics''" "''text/plain''" "''up 1''"]
        scrape_route_authentication
          [of defaultOptions "\<lambda>r. Throws" "getRequest ''/metrics''" "''text/plain''" "''up 1''"]
  by (simp add: defaultOptions_def)

section \<open>Route extraction\<close>

lemma routeLoop_methods:
  "set (map entry_method (routeLoop wd st r L hs)) =
     {m. L m \<noteq> Some True \<and> (\<exists>h\<in>set hs. handlerVerb h = Some m)}"
proof (induction hs arbitrary: L)
  case Nil
  then show ?case by simp
next
  case (Cons h hs)
  show ?case
  proof (cases "handlerVerb h")
    case None
    with Cons show ?thesis by auto
  next
    case (Some m)
    show ?thesis
    proof (cases "L m = Some True")
      case True
      with Some Cons show ?thesis by auto
    next
      case False
      have "set (map entry_method (routeLoop wd st r (L(m \<mapsto> True)) hs)) =
              {m'. m' \<noteq> m \<and> L m' \<noteq> Some True \<and> (\<exists>h\<in>set hs. handlerVerb h = Some m')}"
        unfolding Cons [of "L(m \<mapsto> True)"] by auto
      with Some False show ?thesis by auto
    qed
  qed
qed

lemma routeLoop_distinct: "distinct (map entry_method (routeLoop wd st r L hs))"
proof (induction hs arbitrary: L)
  case Nil
  then show ?case by simp
next
  case (Cons h hs)
  show ?case
  proof (cases "handlerVerb h")
    case None
    with Cons show ?thesis by simp
  next
    case (Some m)
    have "m \<notin> set (map entry_method (routeLoop wd st r (L(m \<mapsto> True)) hs))"
      unfolding routeLoop_methods by simp
    with Some Cons show ?thesis by simp
  qed
qed

lemma routeLoop_first_handler:
  "e \<in> set (routeLoop wd st r L hs) \<Longrightarrow>
   \<exists>h. find (\<lambda>h. handlerVerb h = Some (entry_method e)) hs = Some h \<and> path e = routePath wd st r h"
proof (induction hs arbitrary: L)
  case Nil
  then show ?case by simp
next
  case (Cons h hs)
  show ?case
  proof (cases "handlerVerb h")
    case None
    with Cons show ?thesis by simp
  next
    case (Some m)
    show ?thesis
    proof (cases "L m = Some True")
      case True
      with Some Cons.prems have in_rest: "e \<in> set (routeLoop wd st r L hs)" by simp
      then have "entry_method e \<in> set (map entry_method (routeLoop wd st r L hs))" by simp
      then have "entry_method e \<noteq> m" unfolding routeLoop_methods using True by auto
      with Some Cons.IH [OF in_rest] show ?thesis by simp
    next
      case False
      show ?thesis
      proof (cases "e = \<lparr>entry_method = m, path = routePath wd st r h\<rparr>")
        case True
        with Some show ?thesis by simp
      next
        case other: False
        with Some False Cons.prems
        have in_rest: "e \<in> set (routeLoop wd st r (L(m \<mapsto> True)) hs)" by simp
        then have "entry_method e \<in> set (map entry_method (routeLoop wd st r (L(m \<mapsto> True)) hs))"
          by simp
        then have "entry_method e \<noteq> m" unfolding routeLoop_methods by auto
        with Some Cons.IH [OF in_rest] show ?thesis by simp
      qed
    qed
  qed
qed

lemma resolve_absolute: "\<exists>rest. resolve wd p = CHR ''/'' # rest"
  by (simp add: resolve_def Let_def)

text \<open>
  Claim C7.  For a route node \<open>st\<close> with the route \<open>r\<close>: the entries extracted for it
  carry pairwise different verbs; the verbs are exactly the upper-cased methods of the
  handlers of \<open>r\<close> that have one; and the path of the entry for a verb comes from the
  first handler with that verb (a later one with the same verb adds nothing): it is the
  concatenation of the fragments \<open>routerPath\<close>, \<open>route.path\<close> and the handler's \<open>path\<close>
  that are present and not empty, in that order, resolved by \<open>path.resolve\<close>, and so
  starts with a slash.  The routes of an application are those of its stack entries, in
  order.
\<close>

theorem route_entries_of_node:
  "route st = Some r \<Longrightarrow>
   distinct (map entry_method (stackRoutes wd st)) \<and>
   set (map entry_method (stackRoutes wd st)) = {m. \<exists>h\<in>set (route_stack r). handlerVerb h = Some m} \<and>
   (\<forall>e\<in>set (stackRoutes wd st).
      \<exists>h. find (\<lambda>h. handlerVerb h = Some (entry_method e)) (route_stack r) = Some h \<and>
          path e = resolve wd (concat (truthy [routerPath st, route_path r, handler_path h])) \<and>
          (\<exists>rest. path e = CHR ''/'' # rest)) \<and>
   (\<forall>stacks. getStacks a = Inr stacks \<longrightarrow>
      extractRoutes wd a = Inr (concat (map (stackRoutes wd) stacks)))"
proof -
  assume r: "route st = Some r"
  have 1: "distinct (map entry_method (stackRoutes wd st))"
    using r by (simp add: stackRoutes_def routeLoop_distinct)
  have 2: "set (map entry_method (stackRoutes wd st)) =
             {m. \<exists>h\<in>set (route_stack r). handlerVerb h = Some m}"
    using r routeLoop_methods [of wd st r Map.empty "route_stack r"]
    by (simp add: stackRoutes_def)
  have 3: "\<forall>e\<in>set (stackRoutes wd st).
      \<exists>h. find (\<lambda>h. handlerVerb h = Some (entry_method e)) (route_stack r) = Some h \<and>
          path e = resolve wd (concat (truthy [routerPath st, route_path r, handler_path h])) \<and>
          (\<exists>rest. path e = CHR ''/'' # rest)"
  proof
    fix e assume "e \<in> set (stackRoutes wd st)"
    with r have "e \<in> set (routeLoop wd st r Map.empty (route_stack r))"
      by (simp add: stackRoutes_def)
    from routeLoop_first_handler [OF this]
    obtain h where h: "find (\<lambda>h. handlerVerb h = Some (entry_method e)) (route_stack r) = Some h"
      and p: "path e = routePath wd st r h" by blast
    from p have "\<exists>rest. path e = CHR ''/'' # rest"
      using resolve_absolute by (simp add: routePath_def)
    with h p show "\<exists>h. find (\<lambda>h. handlerVerb h = Some (entry_method e)) (route_stack r) = Some h \<and>
          path e = resolve wd (concat (truthy [routerPath st, route_path r, handler_path h])) \<and>
          (\<exists>rest. path e = CHR ''/'' # rest)"
      by (auto simp: routePath_def)
  qed
  have 4: "\<forall>stacks. getStacks a = Inr stacks \<longrightarrow>
      extractRoutes wd a = Inr (concat (map (stackRoutes wd) stacks))"
    by (simp add: extractRoutes_def)
  from 1 2 3 4 show ?thesis by blast
qed

theorem route_entries_of_node_witness:
  "route apiEntry = Some apiRoute \<and>
   stackRoutes ''/srv'' apiEntry =
     [\<lparr>entry_method = ''GET'', path = ''/api/users''\<rparr>, \<lparr>entry_method = ''POST'', path = ''/api/users''\<rparr>] \<and>
   distinct (map entry_method (stackRoutes ''/srv'' apiEntry)) \<and>
   set (map entry_method (stackRoutes ''/srv'' apiEntry)) = {''GET'', ''POST''}"
proof -
  have r: "route apiEntry = Some apiRoute" by (simp add: apiEntry_def)
  have v: "stackRoutes ''/srv'' apiEntry =
     [\<lparr>entry_method = ''GET'', path = ''/api/users''\<rparr>, \<lparr>entry_method = ''POST'', path = ''/api/users''\<rparr>]"
    by (simp add: stackRoutes_def apiEntry_def apiRoute_def handlerVerb_def routePath_def
          resolve_def toUpperCase_def upper_char_def)
  from route_entries_of_node [OF r, of "''/srv''" abApp] r v show ?thesis
    by simp
qed

section \<open>Discovery that fails\<close>

lemma extractRoutes_guarded:
  "routes a = None \<Longrightarrow> (case router4 a of None \<Rightarrow> None | Some r \<Rightarrow> router_stack r) = None \<Longrightarrow>
   stack a = None \<Longrightarrow>
   extractRoutes wd a =
     (case express5Stacks a of
        Inr (Some stacks) \<Rightarrow> Inr (concat (map (stackRoutes wd) stacks))
      | Inr None \<Rightarrow> Inr []
      | Inl err \<Rightarrow> Inr [])"
  by (simp add: extractRoutes_def getStacks_def split: sum.splits option.splits)

lemma isPathAllowed_empty: "allowedRoutes s = [] \<Longrightarrow> \<not> isPathAllowed s m p"
  by (simp add: isPathAllowed_def)

lemma admit_empty_catalog:
  "\<not> collectAnyPaths opts \<Longrightarrow> allowedRoutes s = [] \<Longrightarrow>
   isAllowedRoutesInitialized s \<or> extractRoutes (cwd e) (req_app req) = Inr [] \<Longrightarrow>
   \<exists>s'. admit e opts req s = Inl (s', None)"
  by (auto simp: admit_def Let_def initializeAllowedRoutes_def normalizedAllowedRoutes_def
        isPathAllowed_def)

text \<open>
  Claim C6, as the code has it.  When discovery reaches its guarded last branch (the
  application has no \<open>routes\<close>, no \<open>_router.stack\<close> and no \<open>stack\<close>), it returns a list
  whatever happens there: an exception of that branch, the throwing read of \<open>app.router\<close>
  in particular, gives the empty list.  And with catalog enforcement on and an empty
  catalog the lookup is false for every entry_method and path, and a request that finds the
  catalog empty (already initialized, or discovered empty now) is not recorded: no
  exception, the four metrics untouched.
\<close>

theorem discovery_fails_closed:
  "(routes a = None \<and> (case router4 a of None \<Rightarrow> None | Some r \<Rightarrow> router_stack r) = None \<and>
    stack a = None \<longrightarrow>
      (\<exists>rs. extractRoutes wd a = Inr rs) \<and>
      (router a = Throws \<longrightarrow> extractRoutes wd a = Inr []) \<and>
      (\<forall>err. express5Stacks a = Inl err \<longrightarrow> extractRoutes wd a = Inr [])) \<and>
   (\<not> collectAnyPaths opts \<and> allowedRoutes s = [] \<longrightarrow>
      \<not> isPathAllowed s m p \<and>
      (isAllowedRoutesInitialized s \<or> extractRoutes (cwd e) (req_app req) = Inr [] \<longrightarrow>
         snd (recordResponse e opts req res time s) = None \<and>
         requestCount (fst (recordResponse e opts req res time s)) = requestCount s \<and>
         requestDuration (fst (recordResponse e opts req res time s)) = requestDuration s \<and>
         requestLength (fst (recordResponse e opts req res time s)) = requestLength s \<and>
         responseLength (fst (recordResponse e opts req res time s)) = responseLength s))"
proof -
  have guarded: "(\<exists>rs. extractRoutes wd a = Inr rs) \<and>
      (router a = Throws \<longrightarrow> extractRoutes wd a = Inr []) \<and>
      (\<forall>err. express5Stacks a = Inl err \<longrightarrow> extractRoutes wd a = Inr [])"
    if "routes a = None" "(case router4 a of None \<Rightarrow> None | Some r \<Rightarrow> router_stack r) = None"
       "stack a = None"
  proof -
    note eq = extractRoutes_guarded [OF that, of wd]
    have 1: "\<exists>rs. extractRoutes wd a = Inr rs"
      unfolding eq by (simp split: sum.splits option.splits)
    have 2: "router a = Throws \<longrightarrow> extractRoutes wd a = Inr []"
      unfolding eq by (simp add: express5Stacks_def)
    have 3: "\<forall>err. express5Stacks a = Inl err \<longrightarrow> extractRoutes wd a = Inr []"
      unfolding eq by simp
    from 1 2 3 show ?thesis by blast
  qed
  have closed: "snd (recordResponse e opts req res time s) = None \<and>
         requestCount (fst (recordResponse e opts req res time s)) = requestCount s \<and>
         requestDuration (fst (recordResponse e opts req res time s)) = requestDuration s \<and>
         requestLength (fst (recordResponse e opts req res time s)) = requestLength s \<and>
         responseLength (fst (recordResponse e opts req res time s)) = responseLength s"
    if "\<not> collectAnyPaths opts" "allowedRoutes s = []"
       "isAllowedRoutesInitialized s \<or> extractRoutes (cwd e) (req_app req) = Inr []"
  proof -
    from admit_empty_catalog [OF that]
    obtain s' where a: "admit e opts req s = Inl (s', None)" by blast
    from metrics_admit_Inl [OF a] a show ?thesis by (simp add: recordResponse_def)
  qed
  from guarded closed isPathAllowed_empty [of s m p] show ?thesis by blast
qed

lemma extractRoutes_throwingApp: "extractRoutes wd throwingApp = Inr []"
  by (simp add: extractRoutes_def getStacks_def throwingApp_def express5Stacks_def)

theorem discovery_fails_closed_witness:
  "routes throwingApp = None \<and> router4 throwingApp = None \<and> stack throwingApp = None \<and>
   router throwingApp = Throws \<and> \<not> collectAnyPaths defaultOptions \<and>
   allowedRoutes initialState = [] \<and>
   extractRoutes ''/srv'' throwingApp = Inr [] \<and>
   \<not> isPathAllowed initialState ''GET'' ''/a'' \<and>
   recordResponse specEnv defaultOptions ((getRequest ''/a'')\<lparr>req_app := throwingApp\<rparr>)
     okResponse 5 initialState =
     (initialState\<lparr>isAllowedRoutesInitialized := True, sampleCount := 1\<rparr>, None)"
proof -
  have v: "recordResponse specEnv defaultOptions ((getRequest ''/a'')\<lparr>req_app := throwingApp\<rparr>)
     okResponse 5 initialState =
     (initialState\<lparr>isAllowedRoutesInitialized := True, sampleCount := 1\<rparr>, None)"
    using extractRoutes_throwingApp [of "''/srv''"]
    by (simp add: recordResponse_def admit_def Let_def initialState_def advance_def
        samplePercent_def isSampled_def specEnv_def defaultOptions_def getRequest_def
        initializeAllowedRoutes_def isPathAllowed_def normalizedAllowedRoutes_def)
  from discovery_fails_closed [of throwingApp "''/srv''" defaultOptions initialState
      "''GET''" "''/a''" specEnv "(getRequest ''/a'')\<lparr>req_app := throwingApp\<rparr>" okResponse 5]
    v
  show ?thesis
    by (simp add: throwingApp_def defaultOptions_def initialState_def)
qed

text \<open>
  The claim as written speaks of every error met while the router's internals are read.
  The first three branches of \<open>getStacks\<close> are outside the \<open>try\<close>: for a router whose
  layers have no \<open>regexp\<close>, \<open>getPathFromRegex\<close> fails on the mounted sub-router and the
  exception leaves \<open>extractRoutes\<close>.
\<close>

theorem unguarded_error_propagates:
  "extractRoutes ''/srv'' noRegexpRouter = Inl TypeError"
  by (simp add: extractRoutes_def getStacks_def noRegexpRouter_def combineStacks_def)

section \<open>The catalog\<close>

lemma catalog_record_metrics:
  "allowedRoutes (fst (record_metrics opts req res time ls s)) = allowedRoutes s \<and>
   isAllowedRoutesInitialized (fst (record_metrics opts req res time ls s)) =
     isAllowedRoutesInitialized s"
  by (simp add: record_metrics_def split: sum.splits option.splits)

lemma catalog_admit_initialized:
  "isAllowedRoutesInitialized s \<Longrightarrow>
   (admit e opts req s = Inl (s', err) \<longrightarrow>
      allowedRoutes s' = allowedRoutes s \<and> isAllowedRoutesInitialized s') \<and>
   (admit e opts req s = Inr (s', p) \<longrightarrow>
      allowedRoutes s' = allowedRoutes s \<and> isAllowedRoutesInitialized s')"
  by (auto simp: admit_def Let_def split: if_splits)

lemma catalog_frozen_step:
  "isAllowedRoutesInitialized s \<Longrightarrow>
   allowedRoutes (fst (recordResponse e opts req res time s)) = allowedRoutes s \<and>
   isAllowedRoutesInitialized (fst (recordResponse e opts req res time s))"
proof (cases "admit e opts req s")
  case (Inl early)
  assume i: "isAllowedRoutesInitialized s"
  obtain s' err where "early = (s', err)" by (cases early)
  with Inl catalog_admit_initialized [OF i, of e opts req s' err] show ?thesis
    by (simp add: recordResponse_def)
next
  case (Inr cont)
  assume i: "isAllowedRoutesInitialized s"
  obtain s' p where "cont = (s', p)" by (cases cont)
  with Inr catalog_admit_initialized [OF i, of e opts req s' _ p] show ?thesis
    by (simp add: recordResponse_def catalog_record_metrics)
qed

lemma catalog_frozen_run:
  "isAllowedRoutesInitialized s \<Longrightarrow>
   allowedRoutes (run e opts rs s) = allowedRoutes s \<and>
   isAllowedRoutesInitialized (run e opts rs s)"
proof (induction rs arbitrary: s)
  case Nil
  then show ?case by simp
next
  case (Cons r rs)
  obtain req res time where r: "r = (req, res, time)" by (cases r)
  from catalog_frozen_step [OF Cons.prems, of e opts req res time]
  have 1: "allowedRoutes (fst (recordResponse e opts req res time s)) = allowedRoutes s"
    and 2: "isAllowedRoutesInitialized (fst (recordResponse e opts req res time s))"
    by simp_all
  from Cons.IH [OF 2] 1 r show ?case by simp
qed

lemma catalog_first_discovery:
  "\<not> isAllowedRoutesInitialized s \<Longrightarrow> originalUrl req \<noteq> metricsPath opts \<Longrightarrow>
   isSampled opts (s\<lparr>sampleCount := advance (sampleCount s)\<rparr>) \<Longrightarrow>
   \<not> collectAnyPaths opts \<Longrightarrow> extractRoutes (cwd e) (req_app req) = Inr rs \<Longrightarrow>
   allowedRoutes (fst (recordResponse e opts req res time s)) =
     allowedRoutes s @ normalizedAllowedRoutes e opts rs \<and>
   isAllowedRoutesInitialized (fst (recordResponse e opts req res time s))"
  by (simp add: recordResponse_def admit_def Let_def initializeAllowedRoutes_def
        catalog_record_metrics)

lemma catalog_untouched:
  "originalUrl req = metricsPath opts \<or>
   \<not> isSampled opts (s\<lparr>sampleCount := advance (sampleCount s)\<rparr>) \<or> collectAnyPaths opts \<or>
   (\<exists>err. extractRoutes (cwd e) (req_app req) = Inl err) \<Longrightarrow>
   allowedRoutes (fst (recordResponse e opts req res time s)) = allowedRoutes s \<and>
   isAllowedRoutesInitialized (fst (recordResponse e opts req res time s)) =
     isAllowedRoutesInitialized s"
  by (auto simp: recordResponse_def admit_def Let_def initializeAllowedRoutes_def
        catalog_record_metrics)

lemma isPathAllowed_iff:
  "isPathAllowed s m p \<longleftrightarrow> (\<exists>r\<in>set (allowedRoutes s). entry_method r = m \<and> path r = p)"
  by (cases "allowedRoutes s") (auto simp: isPathAllowed_def list_ex_iff)

lemma discovery_throws_step:
  "\<not> isAllowedRoutesInitialized s \<Longrightarrow> originalUrl req \<noteq> metricsPath opts \<Longrightarrow>
   isSampled opts (s\<lparr>sampleCount := advance (sampleCount s)\<rparr>) \<Longrightarrow>
   \<not> collectAnyPaths opts \<Longrightarrow> extractRoutes (cwd e) (req_app req) = Inl err \<Longrightarrow>
   recordResponse e opts req res time s =
     (s\<lparr>sampleCount := advance (sampleCount s)\<rparr>, Some err)"
  by (simp add: recordResponse_def admit_def Let_def initializeAllowedRoutes_def)

lemma extractRoutes_noRegexpRouter: "extractRoutes wd noRegexpRouter = Inl TypeError"
  by (simp add: extractRoutes_def getStacks_def noRegexpRouter_def combineStacks_def)

lemma noRegexpRequest_step:
  "\<not> isAllowedRoutesInitialized s \<Longrightarrow> sampleCount s < 100 \<Longrightarrow>
   recordResponse specEnv defaultOptions noRegexpRequest okResponse time s =
     (s\<lparr>sampleCount := sampleCount s + 1\<rparr>, Some TypeError)"
proof -
  assume i: "\<not> isAllowedRoutesInitialized s" and c: "sampleCount s < 100"
  have a: "advance (sampleCount s) = sampleCount s + 1"
    using c by (simp add: advance_def samplePercent_def)
  have 1: "originalUrl noRegexpRequest \<noteq> metricsPath defaultOptions"
    by (simp add: noRegexpRequest_def getRequest_def defaultOptions_def)
  have 2: "isSampled defaultOptions (s\<lparr>sampleCount := advance (sampleCount s)\<rparr>)"
    using c by (simp add: isSampled_def a samplePercent_def defaultOptions_def)
  have 3: "\<not> collectAnyPaths defaultOptions" by (simp add: defaultOptions_def)
  have 4: "extractRoutes (cwd specEnv) (req_app noRegexpRequest) = Inl TypeError"
    by (simp add: noRegexpRequest_def extractRoutes_noRegexpRouter)
  from discovery_throws_step [OF i 1 2 3 4, of okResponse time] a show ?thesis by simp
qed

text \<open>
  Claim C2, as the code has it.  Take a state whose catalog is not yet initialized (and
  so empty) and a request that reaches the catalog check: not for the scrape path, let
  through by the sample gate, with enforcement on.  That request runs discovery.  When
  discovery returns the routes \<open>rs\<close>, then after that request and any later ones the
  flag is set and the catalog is the normalized list of \<open>rs\<close>, the result of that one
  discovery; and a lookup is true exactly when the list has an entry with that method
  and that path.  When discovery throws, the exception leaves the callback with the flag
  still unset and the catalog still empty, so the next such request runs discovery
  again.
\<close>

theorem catalog_built_once:
  "\<not> isAllowedRoutesInitialized s \<Longrightarrow> allowedRoutes s = [] \<Longrightarrow>
   originalUrl req \<noteq> metricsPath opts \<Longrightarrow>
   isSampled opts (s\<lparr>sampleCount := advance (sampleCount s)\<rparr>) \<Longrightarrow>
   \<not> collectAnyPaths opts \<Longrightarrow>
   (extractRoutes (cwd e) (req_app req) = Inr rs \<longrightarrow>
      isAllowedRoutesInitialized (run e opts ((req, res, time) # later) s) \<and>
      allowedRoutes (run e opts ((req, res, time) # later) s) =
        normalizedAllowedRoutes e opts rs \<and>
      (isPathAllowed (run e opts ((req, res, time) # later) s) m p \<longleftrightarrow>
         (\<exists>r\<in>set (normalizedAllowedRoutes e opts rs). entry_method r = m \<and> path r = p))) \<and>
   (extractRoutes (cwd e) (req_app req) = Inl err \<longrightarrow>
      recordResponse e opts req res time s =
        (s\<lparr>sampleCount := advance (sampleCount s)\<rparr>, Some err) \<and>
      \<not> isAllowedRoutesInitialized (fst (recordResponse e opts req res time s)) \<and>
      allowedRoutes (fst (recordResponse e opts req res time s)) = [])"
proof -
  assume a: "\<not> isAllowedRoutesInitialized s" "originalUrl req \<noteq> metricsPath opts"
    "isSampled opts (s\<lparr>sampleCount := advance (sampleCount s)\<rparr>)"
    "\<not> collectAnyPaths opts"
    and empty: "allowedRoutes s = []"
  let ?s1 = "fst (recordResponse e opts req res time s)"
  have returns: "isAllowedRoutesInitialized (run e opts ((req, res, time) # later) s) \<and>
      allowedRoutes (run e opts ((req, res, time) # later) s) =
        normalizedAllowedRoutes e opts rs \<and>
      (isPathAllowed (run e opts ((req, res, time) # later) s) m p \<longleftrightarrow>
         (\<exists>r\<in>set (normalizedAllowedRoutes e opts rs). entry_method r = m \<and> path r = p))"
    if d: "extractRoutes (cwd e) (req_app req) = Inr rs"
  proof -
    from catalog_first_discovery [OF a d, of res time] empty
    have 1: "allowedRoutes ?s1 = normalizedAllowedRoutes e opts rs"
      and 2: "isAllowedRoutesInitialized ?s1" by simp_all
    from catalog_frozen_run [OF 2, of e opts later] 1
    have 3: "allowedRoutes (run e opts ((req, res, time) # later) s) =
               normalizedAllowedRoutes e opts rs"
      and 4: "isAllowedRoutesInitialized (run e opts ((req, res, time) # later) s)"
      by simp_all
    from 3 4 show ?thesis by (simp add: isPathAllowed_iff)
  qed
  have throws: "recordResponse e opts req res time s =
        (s\<lparr>sampleCount := advance (sampleCount s)\<rparr>, Some err) \<and>
      \<not> isAllowedRoutesInitialized ?s1 \<and> allowedRoutes ?s1 = []"
    if d: "extractRoutes (cwd e) (req_app req) = Inl err"
    using discovery_throws_step [OF a d, of res time] a(1) empty by simp
  from returns throws show ?thesis by blast
qed

lemma normalizedAllowedRoutes_ab:
  "normalizedAllowedRoutes specEnv defaultOptions
     [\<lparr>entry_method = ''GET'', path = ''/a''\<rparr>, \<lparr>entry_method = ''POST'', path = ''/a''\<rparr>,
      \<lparr>entry_method = ''GET'', path = ''/b''\<rparr>] =
     [\<lparr>entry_method = ''GET'', path = ''/a''\<rparr>, \<lparr>entry_method = ''POST'', path = ''/a''\<rparr>,
      \<lparr>entry_method = ''GET'', path = ''/b''\<rparr>]"
  using normalizePath_spec_a
  by (simp add: normalizedAllowedRoutes_def specEnv_def defaultOptions_def)

theorem catalog_built_once_witness:
  "\<not> isAllowedRoutesInitialized initialState \<and> allowedRoutes initialState = [] \<and>
   originalUrl (getRequest ''/c'') \<noteq> metricsPath defaultOptions \<and>
   isSampled defaultOptions (initialState\<lparr>sampleCount := advance (sampleCount initialState)\<rparr>) \<and>
   \<not> collectAnyPaths defaultOptions \<and>
   allowedRoutes (run specEnv defaultOptions
      [(getRequest ''/c'', okResponse, 1), (getRequest ''/a'', okResponse, 1),
       (getRequest ''/zzz'', okResponse, 1)] initialState) =
     [\<lparr>entry_method = ''GET'', path = ''/a''\<rparr>, \<lparr>entry_method = ''POST'', path = ''/a''\<rparr>,
      \<lparr>entry_method = ''GET'', path = ''/b''\<rparr>] \<and>
   isPathAllowed (run specEnv defaultOptions
      [(getRequest ''/c'', okResponse, 1), (getRequest ''/a'', okResponse, 1),
       (getRequest ''/zzz'', okResponse, 1)] initialState) ''GET'' ''/a'' \<and>
   \<not> isPathAllowed (run specEnv defaultOptions
      [(getRequest ''/c'', okResponse, 1), (getRequest ''/a'', okResponse, 1),
       (getRequest ''/zzz'', okResponse, 1)] initialState) ''DELETE'' ''/a'' \<and>
   \<not> isPathAllowed (run specEnv defaultOptions
      [(getRequest ''/c'', okResponse, 1), (getRequest ''/a'', okResponse, 1),
       (getRequest ''/zzz'', okResponse, 1)] initialState) ''GET'' ''/c'' \<and>
   originalUrl noRegexpRequest \<noteq> metricsPath defaultOptions \<and>
   extractRoutes (cwd specEnv) (req_app noRegexpRequest) = Inl TypeError \<and>
   recordResponse specEnv defaultOptions noRegexpRequest okResponse 1 initialState =
     (initialState\<lparr>sampleCount := 1\<rparr>, Some TypeError)"
proof -
  let ?later = "[(getRequest ''/a'', okResponse, 1), (getRequest ''/zzz'', okResponse, 1)]"
  have h1: "\<not> isAllowedRoutesInitialized initialState" by (simp add: initialState_def)
  have h2: "allowedRoutes initialState = []" by (simp add: initialState_def)
  have h3: "originalUrl (getRequest ''/c'') \<noteq> metricsPath defaultOptions"
    by (simp add: getRequest_def defaultOptions_def)
  have h4: "isSampled defaultOptions
              (initialState\<lparr>sampleCount := advance (sampleCount initialState)\<rparr>)"
    by (simp add: isSampled_def initialState_def advance_def samplePercent_def
          defaultOptions_def)
  have h5: "\<not> collectAnyPaths defaultOptions" by (simp add: defaultOptions_def)
  have h6: "extractRoutes (cwd specEnv) (req_app (getRequest ''/c'')) =
     Inr [\<lparr>entry_method = ''GET'', path = ''/a''\<rparr>, \<lparr>entry_method = ''POST'', path = ''/a''\<rparr>,
          \<lparr>entry_method = ''GET'', path = ''/b''\<rparr>]"
    using extractRoutes_abApp by (simp add: specEnv_def getRequest_def)
  have g3: "originalUrl noRegexpRequest \<noteq> metricsPath defaultOptions"
    by (simp add: noRegexpRequest_def getRequest_def defaultOptions_def)
  have g6: "extractRoutes (cwd specEnv) (req_app noRegexpRequest) = Inl TypeError"
    by (simp add: noRegexpRequest_def extractRoutes_noRegexpRouter)
  have adv: "advance (sampleCount initialState) = 1"
    by (simp add: advance_def samplePercent_def initialState_def)
  note t = catalog_built_once [OF h1 h2 h3 h4 h5, of specEnv _ okResponse 1 ?later]
  note u = catalog_built_once [OF h1 h2 g3 h4 h5, of specEnv _ okResponse 1 _ _ _ TypeError]
  from t [of _ "''GET''" "''/a''"] t [of _ "''DELETE''" "''/a''"] t [of _ "''GET''" "''/c''"]
    u h1 h2 h3 h4 h5 h6 g3 g6 adv
  show ?thesis by (simp add: normalizedAllowedRoutes_ab)
qed

text \<open>
  The claim as written has the flag set by the first request and discovery never run
  again.  For a router whose discovery throws (the one with layers without \<open>regexp\<close>),
  the flag is still unset after two requests, and the third runs discovery again and
  ends with the same exception.
\<close>

theorem discovery_rerun_after_throw:
  "\<not> isAllowedRoutesInitialized (run specEnv defaultOptions
        [(noRegexpRequest, okResponse, 1), (noRegexpRequest, okResponse, 1)] initialState) \<and>
   recordResponse specEnv defaultOptions noRegexpRequest okResponse 1
     (run specEnv defaultOptions
        [(noRegexpRequest, okResponse, 1), (noRegexpRequest, okResponse, 1)] initialState) =
     (initialState\<lparr>sampleCount := 3\<rparr>, Some TypeError)"
proof -
  have i0: "\<not> isAllowedRoutesInitialized initialState" by (simp add: initialState_def)
  have c0: "sampleCount initialState < 100" by (simp add: initialState_def)
  have s1: "recordResponse specEnv defaultOptions noRegexpRequest okResponse 1 initialState =
              (initialState\<lparr>sampleCount := 1\<rparr>, Some TypeError)"
    using noRegexpRequest_step [OF i0 c0, of 1] by (simp add: initialState_def)
  have i1: "\<not> isAllowedRoutesInitialized (initialState\<lparr>sampleCount := 1\<rparr>)"
    by (simp add: initialState_def)
  have c1: "sampleCount (initialState\<lparr>sampleCount := 1\<rparr>) < 100" by simp
  have s2: "recordResponse specEnv defaultOptions noRegexpRequest okResponse 1
              (initialState\<lparr>sampleCount := 1\<rparr>) =
              (initialState\<lparr>sampleCount := 2\<rparr>, Some TypeError)"
    using noRegexpRequest_step [OF i1 c1, of 1] by simp
  have i2: "\<not> isAllowedRoutesInitialized (initialState\<lparr>sampleCount := 2\<rparr>)"
    by (simp add: initialState_def)
  have c2: "sampleCount (initialState\<lparr>sampleCount := 2\<rparr>) < 100" by simp
  have s3: "recordResponse specEnv defaultOptions noRegexpRequest okResponse 1
              (initialState\<lparr>sampleCount := 2\<rparr>) =
              (initialState\<lparr>sampleCount := 3\<rparr>, Some TypeError)"
    using noRegexpRequest_step [OF i2 c2, of 1] by simp
  have r: "run specEnv defaultOptions
        [(noRegexpRequest, okResponse, 1), (noRegexpRequest, okResponse, 1)] initialState =
        initialState\<lparr>sampleCount := 2\<rparr>"
    by (simp only: run.simps s1 s2 fst_conv)
  show ?thesis unfolding r using i2 s3 by simp
qed

section \<open>Normalization\<close>



lemma render_map_Ch: "render (map Ch x) = x"
  by (induction x) simp_all

















end
